theory Spec2Isabelle
  imports Main "HOL-Library.AList"
begin

section \<open>The retrieval core of \<^verbatim>\<open>app/utils/rag_chain.py\<close>\<close>

text \<open>
  The module keeps four process-wide tables (the base index, the per-subject and
  per-student indices and the cache of merged indices) and talks to three things it does
  not own: the index files under \<^verbatim>\<open>static/vector_store\<close>, the environment variable
  holding the embedding provider's key, and the PDF loader with the text splitter.
  All of them are fields of one record that every operation takes and returns.

  A FAISS store is modelled by the list of document chunks it indexes, in index order
  (what \<^verbatim>\<open>index_to_docstore_id\<close> and \<^verbatim>\<open>docstore.search\<close> enumerate). A chunk is its
  page content. Subject and user ids are integers, the primary keys \<^verbatim>\<open>Subject.id\<close> and
  \<^verbatim>\<open>User.id\<close> of \<^verbatim>\<open>app/models.py\<close>.

  Every \<^verbatim>\<open>raise\<close> of the module is a value \<open>Inl e\<close>. The libraries are taken to
  succeed: loading a PDF, loading an index file that exists, embedding a text and taking
  the length of an index (so the \<^verbatim>\<open>except: return 0\<close> after a load is never reached).
  Creating directories and printing are left out; they touch nothing the functions read.
\<close>

datatype error = ValueError string | IndexError | AttributeError

datatype vector_db = FAISS (db_docs: "string list")

record world =
  base_vector_db :: "vector_db option"
  subject_dbs :: "int \<rightharpoonup> vector_db"
  student_dbs :: "int \<rightharpoonup> vector_db"
  merged_dbs :: "string \<rightharpoonup> vector_db"
  index_files :: "string \<rightharpoonup> vector_db"
  google_api_key :: bool
  pdf_chunks :: "string \<Rightarrow> string list"
  embedded_texts :: nat

text \<open>
  \<open>index_files w p = Some d\<close> says that \<^verbatim>\<open>p/index.faiss\<close> is a file and that
  \<^verbatim>\<open>FAISS.load_local(p, ...)\<close> yields \<open>d\<close>. \<open>pdf_chunks w f\<close> is what the splitter
  (chunk size 1000, overlap 200) makes of the pages \<^verbatim>\<open>PyPDFLoader(f).load()\<close> returns.
  \<open>embedded_texts\<close> counts the texts handed to the embedding function.
\<close>

subsection \<open>Formatting an id inside an f-string\<close>

definition digit_char :: "nat \<Rightarrow> char" where
  "digit_char n = ''0123456789'' ! n"

fun str_nat :: "nat \<Rightarrow> string" where
  "str_nat n = (if n < 10 then [digit_char n] else str_nat (n div 10) @ [digit_char (n mod 10)])"

declare str_nat.simps [simp del]

definition str :: "int \<Rightarrow> string" where
  "str i = (if i < 0 then CHR ''-'' # str_nat (nat (- i)) else str_nat (nat i))"

subsection \<open>Directories of the index files\<close>

definition BASE_VECTOR_DIR :: string where
  "BASE_VECTOR_DIR = ''static/vector_store/base''"

definition SUBJECT_VECTOR_DIR :: string where
  "SUBJECT_VECTOR_DIR = ''static/vector_store/subjects''"

definition STUDENT_VECTOR_DIR :: string where
  "STUDENT_VECTOR_DIR = ''static/vector_store/students''"

definition path_join :: "string \<Rightarrow> string \<Rightarrow> string" where
  "path_join d f = d @ ''/'' @ f"

subsection \<open>The embedding provider and the FAISS constructor\<close>

definition initialize_embeddings :: "world \<Rightarrow> error + unit" where
  "initialize_embeddings w =
     (if \<not> google_api_key w
      then Inl (ValueError ''GOOGLE_API_KEY not found in environment variables'')
      else Inr ())"

text \<open>
  \<^verbatim>\<open>FAISS.from_documents(docs, embeddings)\<close> embeds the text of every document it is
  given and indexes the documents in the order given.
\<close>

definition FAISS_from_documents :: "string list \<Rightarrow> world \<Rightarrow> vector_db \<times> world" where
  "FAISS_from_documents documents w =
     (FAISS documents, w\<lparr>embedded_texts := embedded_texts w + length documents\<rparr>)"

subsection \<open>\<^verbatim>\<open>create_vector_db\<close>\<close>

definition save_path_of :: "int option \<Rightarrow> int option \<Rightarrow> bool \<Rightarrow> error + string" where
  "save_path_of subject_id user_id is_base =
     (if is_base then Inr BASE_VECTOR_DIR
      else case subject_id of
        Some i \<Rightarrow> Inr (path_join SUBJECT_VECTOR_DIR (str i))
      | None \<Rightarrow>
         (case user_id of
            Some u \<Rightarrow> Inr (path_join STUDENT_VECTOR_DIR (str u))
          | None \<Rightarrow> Inl (ValueError ''Must specify either is_base=True, subject_id, or user_id'')))"

definition subject_key :: "int \<Rightarrow> string" where
  "subject_key subject_id = ''subject_'' @ str subject_id"

definition student_key :: "int \<Rightarrow> string" where
  "student_key user_id = ''student_'' @ str user_id"

text \<open>The branch taken when \<^verbatim>\<open>index.faiss\<close> exists: load it and register it.\<close>

definition register_loaded ::
  "vector_db \<Rightarrow> int option \<Rightarrow> int option \<Rightarrow> bool \<Rightarrow> world \<Rightarrow> world" where
  "register_loaded vdb subject_id user_id is_base w =
     (if is_base then w\<lparr>base_vector_db := Some vdb\<rparr>
      else case subject_id of
        Some i \<Rightarrow> w\<lparr>subject_dbs := (subject_dbs w)(i \<mapsto> vdb)\<rparr>
      | None \<Rightarrow>
         (case user_id of
            Some u \<Rightarrow> w\<lparr>student_dbs := (student_dbs w)(u \<mapsto> vdb)\<rparr>
          | None \<Rightarrow> w))"

text \<open>The branch taken otherwise: build from the split documents, register, invalidate.\<close>

definition register_built ::
  "string list \<Rightarrow> int option \<Rightarrow> int option \<Rightarrow> bool \<Rightarrow> world \<Rightarrow> world" where
  "register_built split_docs subject_id user_id is_base w =
     (if is_base then
        (let (vdb, w1) = FAISS_from_documents split_docs w
         in w1\<lparr>base_vector_db := Some vdb, merged_dbs := Map.empty\<rparr>)
      else case subject_id of
        Some i \<Rightarrow>
          (let (vdb, w1) = FAISS_from_documents split_docs w
           in w1\<lparr>subject_dbs := (subject_dbs w1)(i \<mapsto> vdb),
                  merged_dbs := (merged_dbs w1)(subject_key i := None)\<rparr>)
      | None \<Rightarrow>
         (case user_id of
            Some u \<Rightarrow>
              (let (vdb, w1) = FAISS_from_documents split_docs w
               in w1\<lparr>student_dbs := (student_dbs w1)(u \<mapsto> vdb),
                      merged_dbs := (merged_dbs w1)(student_key u := None)\<rparr>)
          | None \<Rightarrow> w))"

definition create_vector_db ::
  "string list \<Rightarrow> int option \<Rightarrow> int option \<Rightarrow> bool \<Rightarrow> world \<Rightarrow> (error + nat) \<times> world" where
  "create_vector_db file_paths subject_id user_id is_base w =
     (case save_path_of subject_id user_id is_base of
        Inl e \<Rightarrow> (Inl e, w)
      | Inr save_path \<Rightarrow>
         (case index_files w save_path of
            Some vector_db \<Rightarrow>
              (case initialize_embeddings w of
                 Inl e \<Rightarrow> (Inl e, w)
               | Inr _ \<Rightarrow>
                   (Inr (length (db_docs vector_db)),
                    register_loaded vector_db subject_id user_id is_base w))
          | None \<Rightarrow>
              (case initialize_embeddings w of
                 Inl e \<Rightarrow> (Inl e, w)
               | Inr _ \<Rightarrow>
                   (let split_docs = concat (map (pdf_chunks w) file_paths)
                    in if split_docs = []
                       then (Inl (ValueError ''No document content found after splitting''), w)
                       else (Inr (length split_docs),
                             register_built split_docs subject_id user_id is_base w)))))"

subsection \<open>\<^verbatim>\<open>merge_vector_dbs\<close> and \<^verbatim>\<open>get_hierarchical_db\<close>\<close>

definition merge_vector_dbs ::
  "vector_db \<Rightarrow> vector_db \<Rightarrow> unit option \<Rightarrow> world \<Rightarrow> (error + vector_db) \<times> world" where
  "merge_vector_dbs db1 db2 embeddings w =
     (case (case embeddings of None \<Rightarrow> initialize_embeddings w | Some e \<Rightarrow> Inr e) of
        Inl e \<Rightarrow> (Inl e, w)
      | Inr _ \<Rightarrow>
         (let docs1 = db_docs db1;
              docs2 = db_docs db2;
              all_docs = docs1 @ docs2;
              (vdb, w1) = FAISS_from_documents all_docs w
          in (Inr vdb, w1)))"

text \<open>
  Case 1 and Case 2 of \<^verbatim>\<open>get_hierarchical_db\<close> have the same body, once for
  \<^verbatim>\<open>_student_dbs[user_id]\<close> with the key \<^verbatim>\<open>student_<id>\<close> and once for
  \<^verbatim>\<open>_subject_dbs[subject_id]\<close> with the key \<^verbatim>\<open>subject_<id>\<close>: merge with the base index
  unless a merged index is cached or there is no base index, then return the merged
  index if there is one and the scope's own index otherwise.
\<close>

definition scoped_query ::
  "string \<Rightarrow> vector_db \<Rightarrow> unit \<Rightarrow> world \<Rightarrow> (error + vector_db option) \<times> world" where
  "scoped_query merged_key scope_db embeddings w =
     (case (if merged_dbs w merged_key = None
            then (case base_vector_db w of
                    Some base \<Rightarrow>
                      (case merge_vector_dbs scope_db base (Some embeddings) w of
                         (Inl e, w1) \<Rightarrow> (Inl e, w1)
                       | (Inr m, w1) \<Rightarrow>
                           (Inr (), w1\<lparr>merged_dbs := (merged_dbs w1)(merged_key \<mapsto> m)\<rparr>))
                  | None \<Rightarrow> (Inr (), w))
            else (Inr (), w)) of
        (Inl e, w2) \<Rightarrow> (Inl e, w2)
      | (Inr _, w2) \<Rightarrow>
         (case merged_dbs w2 merged_key of
            Some m \<Rightarrow> (Inr (Some m), w2)
          | None \<Rightarrow> (Inr (Some scope_db), w2)))"

definition general_query :: "world \<Rightarrow> (error + vector_db option) \<times> world" where
  "general_query w =
     (case base_vector_db w of
        Some base \<Rightarrow> (Inr (Some base), w)
      | None \<Rightarrow> (Inl (ValueError ''No vector database available for this context''), w))"

definition subject_query ::
  "int option \<Rightarrow> unit \<Rightarrow> world \<Rightarrow> (error + vector_db option) \<times> world" where
  "subject_query subject_id embeddings w =
     (case subject_id of
        None \<Rightarrow> general_query w
      | Some i \<Rightarrow>
         (case subject_dbs w i of
            None \<Rightarrow> general_query w
          | Some sdb \<Rightarrow> scoped_query (subject_key i) sdb embeddings w))"

definition student_query ::
  "int option \<Rightarrow> int option \<Rightarrow> unit \<Rightarrow> world \<Rightarrow> (error + vector_db option) \<times> world" where
  "student_query subject_id user_id embeddings w =
     (case user_id of
        None \<Rightarrow> subject_query subject_id embeddings w
      | Some u \<Rightarrow>
         (case student_dbs w u of
            None \<Rightarrow> subject_query subject_id embeddings w
          | Some sdb \<Rightarrow> scoped_query (student_key u) sdb embeddings w))"

definition load_base :: "world \<Rightarrow> world" where
  "load_base w =
     (if base_vector_db w = None \<and> index_files w BASE_VECTOR_DIR \<noteq> None
      then w\<lparr>base_vector_db := index_files w BASE_VECTOR_DIR\<rparr>
      else w)"

text \<open>
  The value returned is \<open>None\<close> where the Python returns \<^verbatim>\<open>None\<close> (the unset
  \<^verbatim>\<open>_base_vector_db\<close>) and \<open>Some d\<close> where it returns a store.
\<close>

definition get_hierarchical_db ::
  "int option \<Rightarrow> int option \<Rightarrow> world \<Rightarrow> (error + vector_db option) \<times> world" where
  "get_hierarchical_db subject_id user_id w =
     (case initialize_embeddings w of
        Inl e \<Rightarrow> (Inl e, w)
      | Inr embeddings \<Rightarrow>
         (let w1 = load_base w
          in if subject_id = None \<and> user_id = None then (Inr (base_vector_db w1), w1)
             else student_query subject_id user_id embeddings w1))"

subsection \<open>Scopes, the module's initial state and the states it can reach\<close>

text \<open>
  A non-base index belongs to a subject or to a student. The functions below name, for a
  scope, the table entry, the cache key and the directory that \<^verbatim>\<open>create_vector_db\<close>
  and \<^verbatim>\<open>get_hierarchical_db\<close> use for it, and the call that resolves that one scope.
\<close>

datatype scope = Subject int | Student int

fun scope_key :: "scope \<Rightarrow> string" where
  "scope_key (Subject i) = subject_key i"
| "scope_key (Student u) = student_key u"

fun scope_db :: "scope \<Rightarrow> world \<Rightarrow> vector_db option" where
  "scope_db (Subject i) w = subject_dbs w i"
| "scope_db (Student u) w = student_dbs w u"




text \<open>The module-level assignments: no base index, empty tables, empty cache.\<close>

definition initial_world ::
  "(string \<rightharpoonup> vector_db) \<Rightarrow> bool \<Rightarrow> (string \<Rightarrow> string list) \<Rightarrow> world" where
  "initial_world files key chunks =
     \<lparr>base_vector_db = None, subject_dbs = Map.empty, student_dbs = Map.empty,
      merged_dbs = Map.empty, index_files = files, google_api_key = key,
      pdf_chunks = chunks, embedded_texts = 0\<rparr>"




text \<open>
  The scope whose index Case 1 or Case 2 of \<^verbatim>\<open>get_hierarchical_db\<close> picks for the
  given ids: the student's if the user id has one, else the subject's if the subject id
  has one, else none (Case 3).
\<close>

definition selected :: "int option \<Rightarrow> int option \<Rightarrow> world \<Rightarrow> scope option" where
  "selected subject_id user_id w =
     (let of_subject =
            (case subject_id of
               None \<Rightarrow> None
             | Some i \<Rightarrow> if subject_dbs w i = None then None else Some (Subject i))
      in case user_id of
           None \<Rightarrow> of_subject
         | Some u \<Rightarrow> if student_dbs w u = None then of_subject else Some (Student u))"

section \<open>The quiz parser of \<^verbatim>\<open>generate_quiz_questions\<close>\<close>

text \<open>
  A Python string is a list of characters; the characters here are the code points below
  256. The string methods and the regular expressions the parser uses are defined first,
  each with the Python expression it stands for.
\<close>

subsection \<open>String methods\<close>

definition NL :: char where
  "NL = CHR 0x0A"

text \<open>\<^verbatim>\<open>str.isspace\<close> and the regular expression class \<^verbatim>\<open>\s\<close> on one character.\<close>

definition isspace :: "char \<Rightarrow> bool" where
  "isspace c \<longleftrightarrow>
     c \<in> set [CHR 0x09, CHR 0x0A, CHR 0x0B, CHR 0x0C, CHR 0x0D, CHR 0x1C, CHR 0x1D,
               CHR 0x1E, CHR 0x1F, CHR 0x20, CHR 0x85, CHR 0xA0]"

text \<open>The class \<^verbatim>\<open>\d\<close>.\<close>

definition isdigit :: "char \<Rightarrow> bool" where
  "isdigit c \<longleftrightarrow> c \<in> set ''0123456789''"

text \<open>\<^verbatim>\<open>s.strip()\<close> and \<^verbatim>\<open>s.strip(chars)\<close>.\<close>

definition strip :: "string \<Rightarrow> string" where
  "strip s = rev (dropWhile isspace (rev (dropWhile isspace s)))"

definition strip_chars :: "string \<Rightarrow> string \<Rightarrow> string" where
  "strip_chars chars s =
     rev (dropWhile (\<lambda>c. c \<in> set chars) (rev (dropWhile (\<lambda>c. c \<in> set chars) s)))"

text \<open>\<^verbatim>\<open>s.startswith(p)\<close>, \<^verbatim>\<open>s.find(sub)\<close> (with \<open>None\<close> for -1) and \<^verbatim>\<open>sub in s\<close>.\<close>

definition startswith :: "string \<Rightarrow> string \<Rightarrow> bool" where
  "startswith s p \<longleftrightarrow> take (length p) s = p"

fun str_find :: "string \<Rightarrow> string \<Rightarrow> nat option" where
  "str_find sub [] = (if sub = [] then Some 0 else None)"
| "str_find sub (c # cs) =
     (if startswith (c # cs) sub then Some 0 else map_option Suc (str_find sub cs))"

definition contains :: "string \<Rightarrow> string \<Rightarrow> bool" where
  "contains sub s \<longleftrightarrow> str_find sub s \<noteq> None"

text \<open>
  \<^verbatim>\<open>s.split(sep)\<close> and \<^verbatim>\<open>s.split(sep, 1)\<close>. Every separator in the source is a
  non-empty literal; Python raises on an empty one, which no call here can pass.
\<close>

function py_split :: "string \<Rightarrow> string \<Rightarrow> string list" where
  "py_split sep s =
     (if sep = [] then [s]
      else case str_find sep s of
             None \<Rightarrow> [s]
           | Some i \<Rightarrow> take i s # py_split sep (drop (i + length sep) s))"
  by pat_completeness auto
termination
proof (relation "measure (\<lambda>(sep, s). length s)")
  show "wf (measure (\<lambda>(sep, s). length s))" by simp
next
  fix sep s :: string and i
  assume "sep \<noteq> []" and found: "str_find sep s = Some i"
  have "i + length sep \<le> length s" using found
  proof (induction s arbitrary: i)
    case Nil
    then show ?case by (simp split: if_splits)
  next
    case (Cons c cs)
    show ?case
    proof (cases "startswith (c # cs) sep")
      case True
      then have "length sep = length (take (length sep) (c # cs))"
        unfolding startswith_def by simp
      also have "\<dots> \<le> length (c # cs)"
        by simp
      finally have "length sep \<le> length (c # cs)" .
      with True Cons.prems show ?thesis by simp
    next
      case False
      with Cons.prems obtain j where "str_find sep cs = Some j" "i = Suc j" by auto
      with Cons.IH show ?thesis by simp
    qed
  qed
  moreover define k where "k = i + length sep"
  ultimately have "k \<le> length s" and "0 < k"
    using \<open>sep \<noteq> []\<close> by (simp_all add: k_def)
  then have "length (drop k s) < length s"
    by simp
  then show "((sep, drop (i + length sep) s), (sep, s)) \<in> measure (\<lambda>(sep, s). length s)"
    by (simp add: k_def)
qed

declare py_split.simps [simp del]

definition split1 :: "string \<Rightarrow> string \<Rightarrow> string list" where
  "split1 sep s =
     (case str_find sep s of
        None \<Rightarrow> [s]
      | Some i \<Rightarrow> [take i s, drop (i + length sep) s])"

text \<open>\<^verbatim>\<open>xs[1]\<close>, which raises \<^verbatim>\<open>IndexError\<close> on a list shorter than two.\<close>

definition item1 :: "string list \<Rightarrow> error + string" where
  "item1 xs = (case xs of _ # y # _ \<Rightarrow> Inr y | _ \<Rightarrow> Inl IndexError)"

subsection \<open>Regular expressions\<close>

text \<open>
  \<^verbatim>\<open>re.split(r"(?:\*\*)?Question \d+(?:\*\*)?", s)\<close>. \<open>header_core\<close> is the length of a
  match of \<^verbatim>\<open>Question \d+(?:\*\*)?\<close> at the start of the string, \<open>header_match\<close> that of
  the whole pattern; both quantified parts are greedy and nothing follows them, so the
  first alternative that matches is the match. The scan takes the leftmost match, emits
  the text before it and goes on behind it.
\<close>

definition header_core :: "string \<Rightarrow> nat option" where
  "header_core s =
     (if startswith s ''Question '' then
        (let digits = takeWhile isdigit (drop 9 s)
         in if digits = [] then None
            else Some (9 + length digits +
                       (if startswith (drop (9 + length digits) s) ''**'' then 2 else 0)))
      else None)"

definition header_match :: "string \<Rightarrow> nat option" where
  "header_match s =
     (if startswith s ''**'' then
        (case header_core (drop 2 s) of
           Some n \<Rightarrow> Some (n + 2)
         | None \<Rightarrow> header_core s)
      else header_core s)"

function re_split_header :: "string \<Rightarrow> string \<Rightarrow> string list" where
  "re_split_header piece [] = [piece]"
| "re_split_header piece (c # cs) =
     (case header_match (c # cs) of
        Some n \<Rightarrow> piece # re_split_header [] (drop n (c # cs))
      | None \<Rightarrow> re_split_header (piece @ [c]) cs)"
  by pat_completeness auto
termination
proof (relation "measure (\<lambda>(piece, s). length s)")
  show "wf (measure (\<lambda>(piece, s). length s))" by simp
next
  fix piece :: string and c cs n
  assume "header_match (c # cs) = Some n"
  then have "0 < n"
    by (auto simp: header_match_def header_core_def Let_def split: if_splits option.splits)
  then show "(([], drop n (c # cs)), (piece, c # cs)) \<in> measure (\<lambda>(piece, s). length s)"
    by (cases n) simp_all
next
  fix piece :: string and c cs
  show "((piece @ [c], cs), (piece, c # cs)) \<in> measure (\<lambda>(piece, s). length s)"
    by simp
qed

text \<open>
  \<^verbatim>\<open>re.match(r"^A[.)]", s)\<close> and \<^verbatim>\<open>re.match(r"^A\s", s)\<close> for a label, and the
  \<^verbatim>\<open>re.split(..., s, 1)\<close> with the same pattern, which can only match at position 0.
\<close>

definition match_label_punct :: "string \<Rightarrow> string \<Rightarrow> bool" where
  "match_label_punct label s \<longleftrightarrow> startswith s (label @ ''.'') \<or> startswith s (label @ '')'')"

definition match_label_space :: "string \<Rightarrow> string \<Rightarrow> bool" where
  "match_label_space label s \<longleftrightarrow>
     startswith s label \<and>
     (case drop (length label) s of c # _ \<Rightarrow> isspace c | [] \<Rightarrow> False)"

definition split_label_punct :: "string \<Rightarrow> string \<Rightarrow> string list" where
  "split_label_punct label s =
     (if match_label_punct label s then [[], drop (length label + 1) s] else [s])"

definition split_label_space :: "string \<Rightarrow> string \<Rightarrow> string list" where
  "split_label_space label s =
     (if match_label_space label s then [[], drop (length label + 1) s] else [s])"

text \<open>
  \<^verbatim>\<open>re.search(r"\*\*CORRECT:\s*([A-D])\*\*", line)\<close>, giving group 1 of the leftmost
  match, and \<^verbatim>\<open>re.search(r"([A-D])", s)\<close>.
\<close>

definition md_correct_at :: "string \<Rightarrow> string option" where
  "md_correct_at s =
     (if startswith s ''**CORRECT:'' then
        (case dropWhile isspace (drop 10 s) of
           c # rest \<Rightarrow> if c \<in> set ''ABCD'' \<and> startswith rest ''**'' then Some [c] else None
         | [] \<Rightarrow> None)
      else None)"

fun search_md_correct :: "string \<Rightarrow> string option" where
  "search_md_correct [] = None"
| "search_md_correct (c # cs) =
     (case md_correct_at (c # cs) of
        Some g \<Rightarrow> Some g
      | None \<Rightarrow> search_md_correct cs)"

definition search_letter :: "string \<Rightarrow> string option" where
  "search_letter s = map_option (\<lambda>c. [c]) (find (\<lambda>c. c \<in> set ''ABCD'') s)"

subsection \<open>One question block\<close>

text \<open>
  \<^verbatim>\<open>options\<close> is a dictionary from a label to the option's text. Its items are read
  in insertion order when the answers are created, so it is an association list;
  \<open>AList.update\<close> overwrites in place or appends, as an assignment to a dictionary does.
  \<^verbatim>\<open>correct_answer\<close> and \<^verbatim>\<open>question_text\<close> start as \<^verbatim>\<open>None\<close>.
\<close>

type_synonym options = "(string \<times> string) list"

definition LABELS :: "string list" where
  "LABELS = [''A'', ''B'', ''C'', ''D'']"

text \<open>
  The original format: the lines from the first \<^verbatim>\<open>"\nA:"\<close> on. The \<^verbatim>\<open>if\<close>/\<^verbatim>\<open>elif\<close>
  chain tests the labels in the order A, B, C, D and then \<^verbatim>\<open>CORRECT:\<close>.
\<close>

definition original_part :: "string \<Rightarrow> options \<times> string option \<Rightarrow> options \<times> string option" where
  "original_part part st =
     (case find (\<lambda>label. startswith part (label @ '':'')) LABELS of
        Some label \<Rightarrow> (AList.update label (strip (drop 2 part)) (fst st), snd st)
      | None \<Rightarrow>
         if startswith part ''CORRECT:'' then (fst st, Some (strip (drop 8 part)))
         else st)"

definition parse_original :: "string \<Rightarrow> nat \<Rightarrow> (string \<times> options \<times> string) option" where
  "parse_original block option_start =
     (let question_text = strip (take option_start block);
          options_text = strip (drop option_start block);
          options_parts = py_split [NL] options_text;
          (options, correct_answer) = foldl (\<lambda>st part. original_part part st) ([], None) options_parts
      in case correct_answer of
           None \<Rightarrow> None
         | Some correct \<Rightarrow>
            if length options \<noteq> 4 \<or> correct = [] \<or> correct \<notin> set (map fst options) then None
            else Some (question_text, options, correct))"

text \<open>
  The alternative format, line by line. The first chain of twelve branches sets an
  option: the four labels with a colon (on the line or on the stripped line), then with
  \<^verbatim>\<open>.\<close> or \<^verbatim>\<open>)\<close>, then followed by white space. The second chain reads the correct
  answer. Indexing the result of a split with \<^verbatim>\<open>[1]\<close> can raise.
\<close>

definition alternative_option :: "string \<Rightarrow> options \<Rightarrow> error + options" where
  "alternative_option line options =
     (case find (\<lambda>label. startswith line (label @ '':'') \<or> startswith (strip line) (label @ '':''))
             LABELS of
        Some label \<Rightarrow>
          (case item1 (split1 '':'' line) of
             Inl e \<Rightarrow> Inl e
           | Inr t \<Rightarrow> Inr (AList.update label (strip t) options))
      | None \<Rightarrow>
         (case find (\<lambda>label. match_label_punct label (strip line)) LABELS of
            Some label \<Rightarrow>
              (case item1 (split_label_punct label (strip line)) of
                 Inl e \<Rightarrow> Inl e
               | Inr t \<Rightarrow> Inr (AList.update label (strip t) options))
          | None \<Rightarrow>
             (case find (\<lambda>label. match_label_space label (strip line)) LABELS of
                Some label \<Rightarrow>
                  (case item1 (split_label_space label (strip line)) of
                     Inl e \<Rightarrow> Inl e
                   | Inr t \<Rightarrow> Inr (AList.update label (strip t) options))
              | None \<Rightarrow> Inr options)))"

definition correct_after :: "string \<Rightarrow> string \<Rightarrow> string option \<Rightarrow> error + string option" where
  "correct_after marker line correct_answer =
     (case item1 (split1 marker line) of
        Inl e \<Rightarrow> Inl e
      | Inr t \<Rightarrow>
         (let correct_part = strip t
          in Inr (if correct_part \<noteq> [] then Some (strip_chars ''* '' correct_part)
                  else correct_answer)))"

definition alternative_correct :: "string \<Rightarrow> string option \<Rightarrow> error + string option" where
  "alternative_correct line correct_answer =
     (if contains ''**CORRECT:'' line then correct_after ''**CORRECT:'' line correct_answer
      else if contains ''CORRECT:'' line then correct_after ''CORRECT:'' line correct_answer
      else case search_md_correct line of
        Some g \<Rightarrow> Inr (Some g)
      | None \<Rightarrow>
         if contains ''CORRECT ANSWER:'' line then
           (case item1 (split1 ''CORRECT ANSWER:'' line) of
              Inl e \<Rightarrow> Inl e
            | Inr t \<Rightarrow>
               (let correct_part = strip t
                in Inr (if correct_part \<noteq> [] then
                          (case search_letter correct_part of
                             Some g \<Rightarrow> Some g
                           | None \<Rightarrow> correct_answer)
                        else correct_answer)))
         else Inr correct_answer)"

fun alternative_lines ::
  "string list \<Rightarrow> options \<Rightarrow> string option \<Rightarrow> error + options \<times> string option" where
  "alternative_lines [] options correct_answer = Inr (options, correct_answer)"
| "alternative_lines (line # rest) options correct_answer =
     (case alternative_option line options of
        Inl e \<Rightarrow> Inl e
      | Inr options' \<Rightarrow>
         (case alternative_correct line correct_answer of
            Inl e \<Rightarrow> Inl e
          | Inr correct_answer' \<Rightarrow> alternative_lines rest options' correct_answer'))"

definition parse_alternative :: "string \<Rightarrow> error + (string \<times> options \<times> string) option" where
  "parse_alternative block =
     (let question_parts = py_split [NL] block;
          question_text =
            (case question_parts of
               [] \<Rightarrow> None
             | first # _ \<Rightarrow>
                if \<not> list_ex (\<lambda>marker. contains marker first)
                         [''A:'', ''B:'', ''C:'', ''D:'', ''CORRECT:'']
                then Some (strip first) else None)
      in case alternative_lines question_parts [] None of
           Inl e \<Rightarrow> Inl e
         | Inr (options, correct_answer) \<Rightarrow>
            (case (question_text, correct_answer) of
               (Some text, Some correct) \<Rightarrow>
                 if text = [] \<or> length options \<noteq> 4 \<or> correct = [] then Inr None
                 else if correct \<notin> set (map fst options) then Inr None
                 else Inr (Some (text, options, correct))
             | _ \<Rightarrow> Inr None))"

text \<open>
  The body of the \<^verbatim>\<open>try\<close>: \<open>Inr None\<close> is a \<^verbatim>\<open>continue\<close> after a failed validation,
  \<open>Inl e\<close> an exception, \<open>Inr (Some (text, options, correct))\<close> a block that reaches the
  creation of its rows.
\<close>

definition parse_block :: "string \<Rightarrow> error + (string \<times> options \<times> string) option" where
  "parse_block block =
     (case str_find (NL # ''A:'') block of
        None \<Rightarrow> parse_alternative block
      | Some option_start \<Rightarrow> Inr (parse_original block option_start))"

subsection \<open>Rows, the loop over the blocks and the split into blocks\<close>

record answer =
  answer_text :: string
  is_correct :: bool

record question =
  question_quiz_id :: int
  question_text :: string
  question_difficulty :: int
  question_answers :: "answer list"

text \<open>
  A \<^verbatim>\<open>Question\<close> row with the \<^verbatim>\<open>Answer\<close> rows created for it, one per item of
  \<^verbatim>\<open>options\<close>, in order.
\<close>

definition make_question :: "int \<Rightarrow> int \<Rightarrow> string \<times> options \<times> string \<Rightarrow> question" where
  "make_question quiz_id difficulty_level parsed =
     (case parsed of (text, options, correct_answer) \<Rightarrow>
        \<lparr>question_quiz_id = quiz_id, question_text = text,
         question_difficulty = difficulty_level,
         question_answers =
           map (\<lambda>(option_key, option_text).
                  \<lparr>answer_text = option_text, is_correct = (option_key = correct_answer)\<rparr>)
               options\<rparr>)"

text \<open>
  The \<^verbatim>\<open>for\<close> loop: an exception or a failed validation goes on with the next block;
  an accepted block is appended, and the loop breaks once the list has reached
  \<^verbatim>\<open>num_questions\<close>.
\<close>

fun process_blocks :: "int \<Rightarrow> int \<Rightarrow> int \<Rightarrow> string list \<Rightarrow> question list \<Rightarrow> question list" where
  "process_blocks quiz_id num_questions difficulty_level [] generated_questions =
     generated_questions"
| "process_blocks quiz_id num_questions difficulty_level (block # rest) generated_questions =
     (case parse_block block of
        Inl e \<Rightarrow> process_blocks quiz_id num_questions difficulty_level rest generated_questions
      | Inr None \<Rightarrow> process_blocks quiz_id num_questions difficulty_level rest generated_questions
      | Inr (Some parsed) \<Rightarrow>
         (let generated = generated_questions @ [make_question quiz_id difficulty_level parsed]
          in if int (length generated) \<ge> num_questions then generated
             else process_blocks quiz_id num_questions difficulty_level rest generated))"

definition question_blocks :: "string \<Rightarrow> error + string list" where
  "question_blocks raw_output =
     (case (if contains ''QUESTION:'' raw_output
            then (case item1 (split1 ''QUESTION:'' raw_output) of
                    Inl e \<Rightarrow> Inl e
                  | Inr t \<Rightarrow> Inr (''QUESTION:'' @ t))
            else Inr raw_output) of
        Inl e \<Rightarrow> Inl e
      | Inr raw \<Rightarrow>
         (let blocks = py_split ''QUESTION:'' raw;
              blocks = (if length blocks \<le> 1 then re_split_header [] raw else blocks)
          in Inr (map strip (filter (\<lambda>block. strip block \<noteq> []) blocks))))"

definition parse_output :: "int \<Rightarrow> int \<Rightarrow> int \<Rightarrow> string \<Rightarrow> error + question list" where
  "parse_output quiz_id num_questions difficulty_level raw_output =
     (case question_blocks raw_output of
        Inl e \<Rightarrow> Inl e
      | Inr blocks \<Rightarrow> Inr (process_blocks quiz_id num_questions difficulty_level blocks []))"

text \<open>The blocks that pass the validation, in order, as the loop meets them.\<close>

definition accepted :: "string list \<Rightarrow> (string \<times> options \<times> string) list" where
  "accepted blocks =
     List.map_filter
       (\<lambda>block. case parse_block block of Inr (Some parsed) \<Rightarrow> Some parsed | _ \<Rightarrow> None)
       blocks"

subsection \<open>\<^verbatim>\<open>generate_quiz_questions\<close>\<close>

text \<open>
  Around the parser: the argument checks, the lookups of the subject and the quiz, the
  language model and the retrieval chain, and the database session. \<open>retrieval_answer\<close>
  is the text the chain returns for a store, the subject's name and description, the
  number of questions and the difficulty. Rows added to the session are kept in
  \<open>db_session\<close> until a commit moves them to \<open>db_committed\<close>.
\<close>

record quiz_env =
  index :: world
  subject_rows :: "int \<rightharpoonup> string \<times> string"
  quiz_ids :: "int set"
  groq_api_key :: bool
  llm :: bool
  retrieval_answer :: "vector_db \<Rightarrow> string \<times> string \<Rightarrow> int \<Rightarrow> int \<Rightarrow> string"
  db_session :: "question list"
  db_committed :: "question list"

definition initialize_llm :: "quiz_env \<Rightarrow> (error + unit) \<times> quiz_env" where
  "initialize_llm env =
     (if \<not> llm env then
        (if \<not> groq_api_key env
         then (Inl (ValueError ''GROQ_API_KEY not found in environment variables''), env)
         else (Inr (), env\<lparr>llm := True\<rparr>))
      else (Inr (), env))"

definition store_questions :: "question list \<Rightarrow> quiz_env \<Rightarrow> quiz_env" where
  "store_questions generated_questions env =
     (let env1 = env\<lparr>db_session := db_session env @ generated_questions\<rparr>
      in if generated_questions \<noteq> []
         then env1\<lparr>db_committed := db_committed env1 @ db_session env1, db_session := []\<rparr>
         else env1)"

definition generate_quiz_questions ::
  "int \<Rightarrow> int \<Rightarrow> int \<Rightarrow> int \<Rightarrow> quiz_env \<Rightarrow> (error + question list) \<times> quiz_env" where
  "generate_quiz_questions subject_id quiz_id num_questions difficulty_level env =
     (if num_questions \<le> 0 \<or> num_questions > 20
      then (Inl (ValueError ''Number of questions must be between 1 and 20''), env)
      else if difficulty_level < 1 \<or> difficulty_level > 5
      then (Inl (ValueError ''Difficulty level must be between 1 and 5''), env)
      else if subject_dbs (index env) subject_id = None
      then (Inl (ValueError (''No vector database found for subject ID: '' @ str subject_id)), env)
      else case subject_rows env subject_id of
        None \<Rightarrow> (Inl (ValueError (''Subject with ID '' @ str subject_id @ '' not found'')), env)
      | Some subject \<Rightarrow>
         if quiz_id \<notin> quiz_ids env
         then (Inl (ValueError (''Quiz with ID '' @ str quiz_id @ '' not found'')), env)
         else case initialize_llm env of
           (Inl e, env1) \<Rightarrow> (Inl e, env1)
         | (Inr _, env1) \<Rightarrow>
            (case get_hierarchical_db (Some subject_id) None (index env1) of
               (Inl e, w) \<Rightarrow> (Inl e, env1\<lparr>index := w\<rparr>)
             | (Inr None, w) \<Rightarrow> (Inl AttributeError, env1\<lparr>index := w\<rparr>)
             | (Inr (Some vector_db), w) \<Rightarrow>
                (let env2 = env1\<lparr>index := w\<rparr>;
                     raw_output =
                       retrieval_answer env2 vector_db subject num_questions difficulty_level
                 in case parse_output quiz_id num_questions difficulty_level raw_output of
                      Inl e \<Rightarrow> (Inl e, env2)
                    | Inr generated_questions \<Rightarrow>
                        (Inr generated_questions, store_questions generated_questions env2))))"

text \<open>
  What holds of \<^verbatim>\<open>options\<close> throughout a block: no label twice, and only the four labels.
\<close>

definition labelled :: "options \<Rightarrow> bool" where
  "labelled options \<longleftrightarrow> distinct (map fst options) \<and> set (map fst options) \<subseteq> set LABELS"

section \<open>Properties of the retrieval core\<close>

subsection \<open>Cache keys are injective\<close>

lemma digit_char_inj: "a < 10 \<Longrightarrow> b < 10 \<Longrightarrow> digit_char a = digit_char b \<Longrightarrow> a = b"
proof -
  assume a: "a < 10" and b: "b < 10" and eq: "digit_char a = digit_char b"
  have "distinct ''0123456789''" by simp
  moreover have "a < length ''0123456789''" "b < length ''0123456789''" using a b by simp_all
  ultimately show "a = b" using eq unfolding digit_char_def by (simp only: nth_eq_iff_index_eq)
qed

lemma digit_char_not_minus: "a < 10 \<Longrightarrow> digit_char a \<noteq> CHR ''-''"
proof -
  assume "a < 10"
  then have "''0123456789'' ! a \<in> set ''0123456789''" by (intro nth_mem) simp
  then show ?thesis unfolding digit_char_def by auto
qed

lemma str_nat_not_Nil: "str_nat n \<noteq> []"
  by (subst str_nat.simps) simp

lemma str_nat_length: "length (str_nat n) = Suc 0 \<longleftrightarrow> n < 10"
  using str_nat_not_Nil [of "n div 10"] by (subst str_nat.simps) simp

lemma str_nat_inj: "str_nat m = str_nat n \<Longrightarrow> m = n"
proof (induction m arbitrary: n rule: str_nat.induct)
  case (1 m)
  show ?case
  proof (cases "m < 10")
    case True
    then have "length (str_nat m) = Suc 0" by (simp add: str_nat_length)
    then have n: "n < 10" using "1.prems" by (simp add: str_nat_length)
    from True n "1.prems" have "digit_char m = digit_char n"
      by (simp add: str_nat.simps [of m] str_nat.simps [of n])
    with True n show ?thesis by (rule digit_char_inj)
  next
    case False
    then have "length (str_nat m) \<noteq> Suc 0" by (simp add: str_nat_length)
    then have n: "\<not> n < 10" using "1.prems" by (simp add: str_nat_length)
    from False n "1.prems" have eq: "str_nat (m div 10) = str_nat (n div 10)"
      and d: "digit_char (m mod 10) = digit_char (n mod 10)"
      by (simp_all add: str_nat.simps [of m] str_nat.simps [of n])
    from "1.IH" [OF False eq] have "m div 10 = n div 10" .
    moreover have "m mod 10 = n mod 10"
      by (rule digit_char_inj [OF _ _ d]) simp_all
    ultimately show ?thesis by (metis div_mult_mod_eq)
  qed
qed

lemma str_nat_hd: "hd (str_nat n) \<noteq> CHR ''-''"
proof (induction n rule: str_nat.induct)
  case (1 n)
  show ?case
  proof (cases "n < 10")
    case True
    then show ?thesis by (subst str_nat.simps) (simp add: digit_char_not_minus)
  next
    case False
    with "1.IH" show ?thesis
      by (subst str_nat.simps) (simp add: str_nat_not_Nil)
  qed
qed

lemma str_inj: "str i = str j \<Longrightarrow> i = j"
proof -
  assume eq: "str i = str j"
  have neg: "CHR ''-'' # str_nat a \<noteq> str_nat b" for a b
    using str_nat_hd [of b] str_nat_not_Nil [of b] by (cases "str_nat b") auto
  show ?thesis
  proof (cases "i < 0")
    case True
    then have "j < 0" using eq neg [of "nat (- i)" "nat j"] by (auto simp: str_def split: if_splits)
    with True eq have "nat (- i) = nat (- j)" by (simp add: str_def str_nat_inj)
    with True \<open>j < 0\<close> show ?thesis by simp
  next
    case False
    then have "\<not> j < 0" using eq neg [of "nat (- j)" "nat i"] by (auto simp: str_def split: if_splits)
    with False eq have "nat i = nat j" by (simp add: str_def str_nat_inj)
    with False \<open>\<not> j < 0\<close> show ?thesis by simp
  qed
qed

lemma subject_key_inj [simp]: "subject_key i = subject_key j \<longleftrightarrow> i = j"
  by (auto simp: subject_key_def dest: str_inj)

lemma student_key_inj [simp]: "student_key i = student_key j \<longleftrightarrow> i = j"
  by (auto simp: student_key_def dest: str_inj)

lemma subject_key_not_student_key [simp]: "subject_key i \<noteq> student_key u" "student_key u \<noteq> subject_key i"
  by (simp_all add: subject_key_def student_key_def)

subsection \<open>Every reachable state has a consistent cache\<close>


lemma scope_db_simps [simp]:
  "scope_db S (w\<lparr>merged_dbs := m\<rparr>) = scope_db S w"
  "scope_db S (w\<lparr>base_vector_db := b\<rparr>) = scope_db S w"
  "scope_db S (w\<lparr>embedded_texts := n\<rparr>) = scope_db S w"
  "scope_db S (w\<lparr>google_api_key := k\<rparr>) = scope_db S w"
  "scope_db S (w\<lparr>pdf_chunks := f\<rparr>) = scope_db S w"
  "scope_db S (w\<lparr>subject_dbs := (subject_dbs w)(i \<mapsto> d)\<rparr>) = (if S = Subject i then Some d else scope_db S w)"
  "scope_db S (w\<lparr>student_dbs := (student_dbs w)(u \<mapsto> d)\<rparr>) = (if S = Student u then Some d else scope_db S w)"
  by (cases S; simp)+






lemma general_query_world [simp]: "snd (general_query w) = w"
  by (simp add: general_query_def split: option.splits)











subsection \<open>What a resolution returns\<close>

lemma scoped_query_cached:
  "merged_dbs w k = Some m \<Longrightarrow> scoped_query k sdb e w = (Inr (Some m), w)"
  by (simp add: scoped_query_def)

lemma scoped_query_merge:
  "merged_dbs w k = None \<Longrightarrow> base_vector_db w = Some b \<Longrightarrow>
   scoped_query k sdb e w =
     (Inr (Some (FAISS (db_docs sdb @ db_docs b))),
      w\<lparr>embedded_texts := embedded_texts w + (length (db_docs sdb) + length (db_docs b)),
        merged_dbs := (merged_dbs w)(k \<mapsto> FAISS (db_docs sdb @ db_docs b))\<rparr>)"
  by (simp add: scoped_query_def merge_vector_dbs_def FAISS_from_documents_def Let_def)

lemma scoped_query_bare:
  "merged_dbs w k = None \<Longrightarrow> base_vector_db w = None \<Longrightarrow>
   scoped_query k sdb e w = (Inr (Some sdb), w)"
  by (simp add: scoped_query_def)

lemma scope_db_load_base [simp]: "scope_db S (load_base w) = scope_db S w"
  by (cases S) (simp_all add: load_base_def)

lemma selected_load_base [simp]: "selected sid uid (load_base w) = selected sid uid w"
  by (simp add: selected_def load_base_def Let_def split: option.splits)

lemma get_hierarchical_db_selected:
  assumes "google_api_key w" "selected subject_id user_id w = Some S" "scope_db S w = Some sdb"
  shows "get_hierarchical_db subject_id user_id w = scoped_query (scope_key S) sdb () (load_base w)"
  using assms
  by (auto simp: get_hierarchical_db_def initialize_embeddings_def selected_def Let_def
      student_query_def subject_query_def load_base_def split: option.splits if_splits)

lemma selected_resolve [simp]:
  "scope_db S w = Some sdb \<Longrightarrow> selected (case S of Subject i \<Rightarrow> Some i | Student u \<Rightarrow> None) (case S of Subject i \<Rightarrow> None | Student u \<Rightarrow> Some u) w = Some S"
  by (cases S) (simp_all add: selected_def)


lemma get_hierarchical_db_key:
  "get_hierarchical_db subject_id user_id w = (Inr r, w') \<Longrightarrow> google_api_key w"
  by (auto simp: get_hierarchical_db_def initialize_embeddings_def split: if_splits)

lemma scoped_query_frame:
  assumes "scoped_query k sdb e w = (r, w')"
  shows "subject_dbs w' = subject_dbs w" "student_dbs w' = student_dbs w"
    "base_vector_db w' = base_vector_db w" "index_files w' = index_files w"
    "google_api_key w' = google_api_key w"
  using assms
  by (auto simp: scoped_query_def merge_vector_dbs_def FAISS_from_documents_def Let_def
      split: option.splits if_splits)


lemma get_hierarchical_db_frame:
  assumes "get_hierarchical_db subject_id user_id w = (r, w')"
  shows "subject_dbs w' = subject_dbs w" "student_dbs w' = student_dbs w"
  using assms
  by (auto simp: get_hierarchical_db_def Let_def student_query_def subject_query_def general_query_def
      load_base_def
      split: sum.splits option.splits if_splits dest: scoped_query_frame)

lemma selected_cong:
  "subject_dbs w' = subject_dbs w \<Longrightarrow> student_dbs w' = student_dbs w \<Longrightarrow>
   selected sid uid w' = selected sid uid w"
  by (simp add: selected_def split: option.splits)




text \<open>
  The selected scope has such an entry exactly when a base index is present on return:
  with a base index the call leaves a merge in the cache.
\<close>

lemma selected_scope_is_merged:
  assumes "get_hierarchical_db subject_id user_id w = (Inr r, w')"
    and "selected subject_id user_id w' = Some S"
    and "base_vector_db w' = Some base"
  shows "merged_dbs w' (scope_key S) \<noteq> None"
proof -
  have key: "google_api_key w" using assms(1) by (rule get_hierarchical_db_key)
  note fr = get_hierarchical_db_frame [OF assms(1)]
  have sel: "selected subject_id user_id w = Some S" using assms(2) selected_cong [OF fr] by simp
  then obtain sdb where sdb: "scope_db S w = Some sdb"
    by (cases S) (auto simp: selected_def Let_def split: option.splits if_splits)
  from get_hierarchical_db_selected [OF key sel sdb] assms(1)
  have sq: "scoped_query (scope_key S) sdb () (load_base w) = (Inr r, w')" by simp
  from scoped_query_frame(3) [OF sq] assms(3) have b: "base_vector_db (load_base w) = Some base"
    by simp
  show ?thesis
  proof (cases "merged_dbs (load_base w) (scope_key S)")
    case None
    from scoped_query_merge [OF None b, of sdb "()"] sq show ?thesis by auto
  next
    case (Some m)
    from scoped_query_cached [OF Some, of sdb "()"] sq Some show ?thesis by auto
  qed
qed



text \<open>
  C5. Called with neither a subject id nor a user id while no base index was ever built
  or stored, \<^verbatim>\<open>get_hierarchical_db\<close> returns \<^verbatim>\<open>None\<close> instead of raising.
\<close>

theorem get_hierarchical_db_returns_None:
  "get_hierarchical_db None None (initial_world Map.empty True (\<lambda>f. [f])) =
     (Inr None, initial_world Map.empty True (\<lambda>f. [f]))"
  by (simp add: get_hierarchical_db_def initialize_embeddings_def load_base_def initial_world_def)

text \<open>The other two parts of the fallback rule hold.\<close>

lemma fallback_to_base:
  assumes "google_api_key w" "selected subject_id user_id w = None"
    "subject_id \<noteq> None \<or> user_id \<noteq> None"
  shows "base_vector_db (load_base w) = Some base \<Longrightarrow>
           get_hierarchical_db subject_id user_id w = (Inr (Some base), load_base w)"
    and "base_vector_db (load_base w) = None \<Longrightarrow>
           get_hierarchical_db subject_id user_id w =
             (Inl (ValueError ''No vector database available for this context''), load_base w)"
  using assms
  by (auto simp: get_hierarchical_db_def initialize_embeddings_def selected_def Let_def
      student_query_def subject_query_def general_query_def load_base_def
      split: option.splits if_splits)

text \<open>
  C6. A fresh build of the base index from one uploaded file registers the index in
  memory and returns its chunk count, and no index file exists afterwards.
\<close>

theorem create_vector_db_writes_no_file:
  "create_vector_db [''a.pdf''] None None True (initial_world Map.empty True (\<lambda>f. [f])) =
     (Inr 1, (initial_world Map.empty True (\<lambda>f. [f]))
               \<lparr>base_vector_db := Some (FAISS [''a.pdf'']), embedded_texts := 1\<rparr>) \<and>
   index_files (snd (create_vector_db [''a.pdf''] None None True
                       (initial_world Map.empty True (\<lambda>f. [f])))) BASE_VECTOR_DIR = None"
  by (simp add: create_vector_db_def register_built_def FAISS_from_documents_def Let_def
      initialize_embeddings_def save_path_of_def initial_world_def)

text \<open>No call of \<^verbatim>\<open>create_vector_db\<close> changes the index files at all.\<close>

lemma create_vector_db_index_files:
  "index_files (snd (create_vector_db file_paths subject_id user_id is_base w)) = index_files w"
  by (auto simp: create_vector_db_def register_loaded_def register_built_def
      FAISS_from_documents_def Let_def split: sum.splits option.splits)

text \<open>
  C9. Given both a subject id and a user id whose student index exists (and an embedding
  provider that can be initialised), \<^verbatim>\<open>get_hierarchical_db\<close> returns the cached
  student merge if there is one, else a new merge of the student index with the base
  index if there is a base index, else the student index itself; the call behaves as
  the same call without the subject id.
\<close>

theorem student_takes_precedence:
  assumes "google_api_key w" and "student_dbs w u = Some sdb"
  shows "fst (get_hierarchical_db (Some i) (Some u) w) =
           Inr (Some (case merged_dbs w (student_key u) of
                        Some m \<Rightarrow> m
                      | None \<Rightarrow>
                         (case base_vector_db (load_base w) of
                            Some base \<Rightarrow> FAISS (db_docs sdb @ db_docs base)
                          | None \<Rightarrow> sdb))) \<and>
         get_hierarchical_db (Some i) (Some u) w = get_hierarchical_db None (Some u) w"
  using assms
  by (auto simp: get_hierarchical_db_def initialize_embeddings_def load_base_def
      student_query_def scoped_query_def merge_vector_dbs_def FAISS_from_documents_def Let_def
      split: option.splits)

theorem student_takes_precedence_witness:
  "fst (get_hierarchical_db (Some 7) (Some 1)
          ((initial_world Map.empty True (\<lambda>f. [f]))
             \<lparr>subject_dbs := [7 \<mapsto> FAISS [''t'']], student_dbs := [1 \<mapsto> FAISS [''s'']]\<rparr>)) =
     Inr (Some (FAISS [''s'']))"
  using student_takes_precedence
    [of "(initial_world Map.empty True (\<lambda>f. [f]))
           \<lparr>subject_dbs := [7 \<mapsto> FAISS [''t'']], student_dbs := [1 \<mapsto> FAISS [''s'']]\<rparr>"
        1 "FAISS [''s'']" 7, THEN conjunct1]
  by (simp add: initial_world_def load_base_def)

subsection \<open>Invalidation on a fresh build, and what a merge costs\<close>








lemmas run_defs =
  get_hierarchical_db_def create_vector_db_def save_path_of_def initial_world_def
  initialize_embeddings_def register_built_def register_loaded_def FAISS_from_documents_def
  load_base_def student_query_def subject_query_def general_query_def scoped_query_def
  merge_vector_dbs_def Let_def


text \<open>
  C3 (as amended). A merge is built with \<^verbatim>\<open>FAISS.from_documents\<close> over the documents of
  both sources, so every one of them is embedded again: a call that selects a scope
  without a cached merge while a base index is present embeds as many texts as the
  scope's index and the base index hold together. A call answered from the cache, or
  made without a base index, embeds nothing.
\<close>

theorem merge_embeds_both_sources:
  assumes "google_api_key w"
    and "selected subject_id user_id w = Some S"
    and "scope_db S w = Some sdb"
  shows "embedded_texts (snd (get_hierarchical_db subject_id user_id w)) =
           embedded_texts w +
             (case merged_dbs w (scope_key S) of
                Some m \<Rightarrow> 0
              | None \<Rightarrow>
                 (case base_vector_db (load_base w) of
                    Some base \<Rightarrow> length (db_docs sdb) + length (db_docs base)
                  | None \<Rightarrow> 0))"
proof -
  have m: "merged_dbs (load_base w) = merged_dbs w" and e: "embedded_texts (load_base w) = embedded_texts w"
    by (simp_all add: load_base_def)
  show ?thesis
    unfolding get_hierarchical_db_selected [OF assms]
    by (cases "merged_dbs w (scope_key S)"; cases "base_vector_db (load_base w)")
       (simp_all add: scoped_query_cached scoped_query_merge scoped_query_bare m e)
qed

theorem merge_embeds_both_sources_witness:
  "embedded_texts (snd (get_hierarchical_db None (Some 1)
      ((initial_world Map.empty True (\<lambda>f. [f]))
         \<lparr>base_vector_db := Some (FAISS [''b1'', ''b2'']),
          student_dbs := [1 \<mapsto> FAISS [''s1'']]\<rparr>))) = 3"
  using merge_embeds_both_sources
    [of "(initial_world Map.empty True (\<lambda>f. [f]))
         \<lparr>base_vector_db := Some (FAISS [''b1'', ''b2'']),
          student_dbs := [1 \<mapsto> FAISS [''s1'']]\<rparr>" None "Some 1" "Student 1" "FAISS [''s1'']"]
  by (simp add: initial_world_def selected_def load_base_def)

text \<open>
  The claim as stated, that a merge embeds nothing, fails after one base build and one
  student build: resolving the student then stores a merge and embeds two texts.
\<close>

theorem merge_embeds_counterexample:
  "merged_dbs (snd (get_hierarchical_db None (Some 1)
      (snd (create_vector_db [''s.pdf''] None (Some 1) False
         (snd (create_vector_db [''b.pdf''] None None True
            (initial_world Map.empty True (\<lambda>f. [f]))))))))
     (student_key 1) = Some (FAISS [''s.pdf'', ''b.pdf'']) \<and>
   embedded_texts (snd (get_hierarchical_db None (Some 1)
      (snd (create_vector_db [''s.pdf''] None (Some 1) False
         (snd (create_vector_db [''b.pdf''] None None True
            (initial_world Map.empty True (\<lambda>f. [f]))))))))
   - embedded_texts
      (snd (create_vector_db [''s.pdf''] None (Some 1) False
         (snd (create_vector_db [''b.pdf''] None None True
            (initial_world Map.empty True (\<lambda>f. [f])))))) \<noteq> 0"
  by (simp add: run_defs)

text \<open>
  Since no index file is written, a second build of the same index finds none and embeds
  the same documents again.
\<close>

lemma two_builds_embed_twice:
  "embedded_texts
     (snd (create_vector_db [''a.pdf''] None None True
        (snd (create_vector_db [''a.pdf''] None None True
           (initial_world Map.empty True (\<lambda>f. [f])))))) = 2"
  by (simp add: run_defs)

section \<open>Properties of the quiz parser\<close>

subsection \<open>Stripping, and the labels of a block\<close>

lemma strip_eq_Nil: "strip s = [] \<longleftrightarrow> (\<forall>c\<in>set s. isspace c)"
proof -
  have "strip s = [] \<longleftrightarrow> (\<forall>c\<in>set (dropWhile isspace s). isspace c)"
    by (simp add: strip_def dropWhile_eq_Nil_conv)
  also have "\<dots> \<longleftrightarrow> dropWhile isspace s = []"
    by (metis hd_dropWhile list.set_sel(1) empty_iff list.set(1))
  also have "\<dots> \<longleftrightarrow> (\<forall>c\<in>set s. isspace c)"
    by (simp add: dropWhile_eq_Nil_conv)
  finally show ?thesis .
qed

lemma hd_strip: "strip s \<noteq> [] \<Longrightarrow> \<not> isspace (hd (strip s))"
proof -
  assume ne: "strip s \<noteq> []"
  let ?t = "dropWhile isspace s"
  have "?t = strip s @ rev (takeWhile isspace (rev ?t))"
    unfolding strip_def by (metis rev_append rev_rev_ident takeWhile_dropWhile_id)
  with ne have "hd ?t = hd (strip s)" by (metis hd_append2)
  moreover have "?t \<noteq> []"
  proof
    assume "?t = []"
    then have "strip s = []" unfolding strip_def by (simp only: rev.simps dropWhile.simps)
    with ne show False by simp
  qed
  ultimately show ?thesis by (metis hd_dropWhile)
qed

lemma question_blocks_stripped:
  assumes "question_blocks raw = Inr blocks" "b \<in> set blocks"
  shows "b \<noteq> [] \<and> \<not> isspace (hd b)"
  using assms
  by (auto simp: question_blocks_def Let_def hd_strip split: if_splits sum.splits)

lemma str_find_zero: "str_find (c # sub) s = Some 0 \<Longrightarrow> s \<noteq> [] \<and> hd s = c"
  by (cases s) (auto simp: startswith_def split: if_splits)

lemma isspace_NL: "isspace NL"
  by (simp add: isspace_def NL_def)

lemma original_text_not_empty:
  assumes "b \<noteq> []" "\<not> isspace (hd b)" "str_find (NL # ''A:'') b = Some i"
  shows "strip (take i b) \<noteq> []"
proof -
  have "i \<noteq> 0"
  proof
    assume "i = 0"
    with assms(3) have "hd b = NL" using str_find_zero [of NL "''A:''" b] by simp
    with assms(2) isspace_NL show False by simp
  qed
  then have "hd b \<in> set (take i b)" using assms(1) by (cases b; cases i) auto
  with assms(2) show ?thesis by (auto simp: strip_eq_Nil)
qed

lemma labelled_Nil: "labelled []"
  by (simp add: labelled_def)

lemma labelled_update:
  assumes "labelled options" "find P LABELS = Some label"
  shows "labelled (AList.update label t options)"
proof -
  from assms(2) have "label \<in> set LABELS" by (auto simp: find_Some_iff)
  with assms(1) show ?thesis
    by (auto simp: labelled_def distinct_update dom_update)
qed

lemma original_part_labelled: "labelled (fst st) \<Longrightarrow> labelled (fst (original_part part st))"
  by (auto simp: original_part_def labelled_update split: option.splits)

lemma foldl_original_labelled:
  "labelled (fst st) \<Longrightarrow> labelled (fst (foldl (\<lambda>st part. original_part part st) st parts))"
  by (induction parts arbitrary: st) (simp_all add: original_part_labelled)

lemma alternative_option_labelled:
  "labelled options \<Longrightarrow> alternative_option line options = Inr options' \<Longrightarrow> labelled options'"
  by (auto simp: alternative_option_def labelled_update split: option.splits sum.splits)

lemma alternative_lines_labelled:
  "labelled options \<Longrightarrow> alternative_lines lines options c = Inr (options', c') \<Longrightarrow> labelled options'"
proof (induction lines arbitrary: options c)
  case Nil
  then show ?case by simp
next
  case (Cons line rest)
  then show ?case
    by (auto split: sum.splits dest: alternative_option_labelled)
qed

lemma labelled_four:
  assumes "labelled options" "length options = 4"
  shows "set (map fst options) = set LABELS"
proof -
  have "card (set (map fst options)) = 4"
    using assms distinct_card [of "map fst options"] by (simp add: labelled_def)
  moreover have "card (set LABELS) = 4" by (simp add: LABELS_def)
  ultimately show ?thesis
    using assms(1) by (simp add: labelled_def card_subset_eq)
qed

lemma one_correct:
  "distinct (map fst options) \<Longrightarrow> correct \<in> set (map fst options) \<Longrightarrow>
   length (filter (\<lambda>(k, t). k = correct) options) = 1"
proof (induction options)
  case Nil
  then show ?case by simp
next
  case (Cons p options)
  obtain k t where p: "p = (k, t)" by (cases p)
  show ?case
  proof (cases "k = correct")
    case True
    with Cons.prems p have "correct \<notin> set (map fst options)" by auto
    then have "filter (\<lambda>(k, t). k = correct) options = []"
      by (force simp: filter_empty_conv)
    with True p show ?thesis by simp
  next
    case False
    with Cons p show ?thesis by auto
  qed
qed

lemma parse_original_valid:
  assumes "parse_original b i = Some (text, options, correct)"
  shows "text = strip (take i b) \<and> labelled options \<and> length options = 4 \<and>
         correct \<in> set (map fst options)"
proof -
  let ?st = "foldl (\<lambda>st part. original_part part st) ([], None) (py_split [NL] (strip (drop i b)))"
  have "labelled (fst ?st)" by (rule foldl_original_labelled) (simp add: labelled_Nil)
  then show ?thesis
    using assms
    by (auto simp: parse_original_def Let_def split: prod.splits option.splits if_splits)
qed

lemma parse_alternative_valid:
  assumes "parse_alternative b = Inr (Some (text, options, correct))"
  shows "text \<noteq> [] \<and> labelled options \<and> length options = 4 \<and> correct \<in> set (map fst options)"
  using assms alternative_lines_labelled [OF labelled_Nil]
  by (auto simp: parse_alternative_def Let_def
      split: sum.splits prod.splits option.splits if_splits list.splits)

lemma parse_block_valid:
  assumes "parse_block b = Inr (Some (text, options, correct))"
    and "b \<noteq> []" "\<not> isspace (hd b)"
  shows "text \<noteq> [] \<and> labelled options \<and> length options = 4 \<and> correct \<in> set (map fst options)"
proof (cases "str_find (NL # ''A:'') b")
  case None
  with assms(1) have "parse_alternative b = Inr (Some (text, options, correct))"
    by (simp add: parse_block_def)
  then show ?thesis by (rule parse_alternative_valid)
next
  case (Some i)
  with assms(1) have "parse_original b i = Some (text, options, correct)"
    by (simp add: parse_block_def)
  from parse_original_valid [OF this] original_text_not_empty [OF assms(2,3) Some]
  show ?thesis by simp
qed

subsection \<open>The loop and its result\<close>

lemma question_blocks_total: "\<exists>blocks. question_blocks raw = Inr blocks"
proof (cases "contains ''QUESTION:'' raw")
  case True
  then obtain i where "str_find ''QUESTION:'' raw = Some i"
    by (auto simp: contains_def)
  then have "item1 (split1 ''QUESTION:'' raw) = Inr (drop (i + length ''QUESTION:'') raw)"
    by (simp add: split1_def item1_def)
  with True show ?thesis by (simp add: question_blocks_def Let_def)
next
  case False
  then show ?thesis by (simp add: question_blocks_def Let_def)
qed

lemma process_blocks_set:
  "q \<in> set (process_blocks quiz n d blocks acc) \<Longrightarrow>
   q \<in> set acc \<or> (\<exists>b\<in>set blocks. \<exists>p. parse_block b = Inr (Some p) \<and> q = make_question quiz d p)"
proof (induction blocks arbitrary: acc)
  case Nil
  then show ?case by simp
next
  case (Cons b blocks)
  show ?case
  proof (cases "parse_block b")
    case (Inl e)
    with Cons show ?thesis by auto
  next
    case (Inr r)
    show ?thesis
    proof (cases r)
      case None
      with Inr Cons show ?thesis by auto
    next
      case (Some p)
      let ?gen = "acc @ [make_question quiz d p]"
      show ?thesis
      proof (cases "n \<le> int (length ?gen)")
        case True
        with Inr Some Cons.prems have "q \<in> set ?gen" by (simp add: Let_def)
        with Inr Some show ?thesis by (cases p) auto
      next
        case False
        with Inr Some Cons.prems have "q \<in> set (process_blocks quiz n d blocks ?gen)"
          by (simp add: Let_def)
        from Cons.IH [OF this] Inr Some show ?thesis by (cases p) auto
      qed
    qed
  qed
qed

lemma accepted_Cons:
  "accepted (b # blocks) =
     (case parse_block b of Inr (Some p) \<Rightarrow> p # accepted blocks | _ \<Rightarrow> accepted blocks)"
  by (simp add: accepted_def map_filter_simps split: sum.splits option.splits)

lemma process_blocks_take:
  "int (length acc) < n \<Longrightarrow>
   process_blocks quiz n d blocks acc =
     take (nat n) (acc @ map (make_question quiz d) (accepted blocks))"
proof (induction blocks arbitrary: acc)
  case Nil
  then show ?case by (simp add: accepted_def map_filter_simps)
next
  case (Cons b blocks)
  show ?case
  proof (cases "parse_block b")
    case (Inl e)
    with Cons show ?thesis by (simp add: accepted_Cons)
  next
    case (Inr r)
    show ?thesis
    proof (cases r)
      case None
      with Inr Cons show ?thesis by (simp add: accepted_Cons)
    next
      case (Some p)
      let ?gen = "acc @ [make_question quiz d p]"
      show ?thesis
      proof (cases "n \<le> int (length ?gen)")
        case True
        with Cons.prems have "nat n = length ?gen" by simp
        then have "take (nat n) (?gen @ map (make_question quiz d) (accepted blocks)) = ?gen"
          by simp
        with True Inr Some show ?thesis by (simp add: accepted_Cons Let_def)
      next
        case False
        then have "int (length ?gen) < n" by simp
        from Cons.IH [OF this] False Inr Some show ?thesis
          by (simp add: accepted_Cons Let_def)
      qed
    qed
  qed
qed

lemma accepted_Nil: "accepted [] = []"
  by (simp add: accepted_def map_filter_simps)

lemma accepted_set:
  "p \<in> set (accepted blocks) \<longleftrightarrow> (\<exists>b\<in>set blocks. parse_block b = Inr (Some p))"
  by (induction blocks) (auto simp: accepted_Nil accepted_Cons split: sum.splits option.splits)

text \<open>
  C7. For every raw text, every question the parse step returns has a non-empty text and
  exactly four answers of which exactly one is marked correct; it was made from a block
  of the text whose extracted option labels are exactly A, B, C and D, each once, and
  whose declared correct answer is one of them.
\<close>

theorem parsed_questions_valid:
  assumes "parse_output quiz_id num_questions difficulty_level raw_output = Inr questions"
    and "q \<in> set questions"
  shows "question_text q \<noteq> [] \<and>
         length (question_answers q) = 4 \<and>
         length (filter is_correct (question_answers q)) = 1 \<and>
         (\<exists>blocks block text options correct.
            question_blocks raw_output = Inr blocks \<and> block \<in> set blocks \<and>
            parse_block block = Inr (Some (text, options, correct)) \<and>
            q = make_question quiz_id difficulty_level (text, options, correct) \<and>
            distinct (map fst options) \<and> set (map fst options) = set LABELS \<and>
            correct \<in> set (map fst options))"
proof -
  from assms(1) obtain blocks where blocks: "question_blocks raw_output = Inr blocks"
    and qs: "questions = process_blocks quiz_id num_questions difficulty_level blocks []"
    by (auto simp: parse_output_def split: sum.splits)
  from process_blocks_set [of q quiz_id num_questions difficulty_level blocks "[]"] assms(2) qs
  obtain b p where b: "b \<in> set blocks" "parse_block b = Inr (Some p)"
    and q: "q = make_question quiz_id difficulty_level p" by auto
  obtain qtext options correct where p: "p = (qtext, options, correct)" by (cases p)
  from question_blocks_stripped [OF blocks b(1)] have "b \<noteq> []" "\<not> isspace (hd b)" by simp_all
  from parse_block_valid [OF b(2) [unfolded p] this]
  have v: "qtext \<noteq> []" "labelled options" "length options = 4" "correct \<in> set (map fst options)"
    by simp_all
  have d: "distinct (map fst options)" using v(2) by (simp add: labelled_def)
  have "length (filter is_correct (question_answers q)) =
        length (filter (\<lambda>x. fst x = correct) options)"
    unfolding q p make_question_def
    by (simp add: filter_map comp_def case_prod_beta)
  also have "\<dots> = 1" using one_correct [OF d v(4)] by (simp add: case_prod_unfold)
  finally have one: "length (filter is_correct (question_answers q)) = 1" .
  have "question_text q = qtext" "length (question_answers q) = length options"
    unfolding q p make_question_def by simp_all
  with v one d labelled_four [OF v(2,3)] blocks b q p show ?thesis by auto
qed

text \<open>
  C8 (as amended). For every raw text the parse step returns normally, and what it returns
  is the list of questions alone: the blocks are split off, each block that fails the
  validation (or raises inside the \<^verbatim>\<open>try\<close>) is left out, and for a requested count of
  at least one the result is the first that many accepted blocks, in order. No count of
  the skipped blocks is returned.
\<close>

theorem parse_output_records_only:
  "\<exists>blocks. question_blocks raw_output = Inr blocks \<and>
     parse_output quiz_id num_questions difficulty_level raw_output =
       Inr (process_blocks quiz_id num_questions difficulty_level blocks []) \<and>
     (1 \<le> num_questions \<longrightarrow>
        process_blocks quiz_id num_questions difficulty_level blocks [] =
          take (nat num_questions) (map (make_question quiz_id difficulty_level) (accepted blocks)))"
proof -
  obtain blocks where blocks: "question_blocks raw_output = Inr blocks"
    using question_blocks_total by blast
  have "process_blocks quiz_id num_questions difficulty_level blocks [] =
          take (nat num_questions) (map (make_question quiz_id difficulty_level) (accepted blocks))"
    if "1 \<le> num_questions"
    using process_blocks_take [of "[]" num_questions quiz_id difficulty_level blocks] that by simp
  with blocks show ?thesis by (simp add: parse_output_def)
qed

theorem parsed_questions_valid_witness:
  "question_text
     \<lparr>question_quiz_id = 1, question_text = ''What is 2+2?'', question_difficulty = 3,
      question_answers =
        [\<lparr>answer_text = ''3'', is_correct = False\<rparr>, \<lparr>answer_text = ''4'', is_correct = True\<rparr>,
         \<lparr>answer_text = ''5'', is_correct = False\<rparr>, \<lparr>answer_text = ''6'', is_correct = False\<rparr>]\<rparr> \<noteq> [] \<and>
   parse_output 1 5 3
     (''Intro'' @ [NL] @ ''QUESTION: What is 2+2?'' @ [NL] @ ''A: 3'' @ [NL] @ ''B: 4'' @ [NL] @
      ''C: 5'' @ [NL] @ ''D: 6'' @ [NL] @ ''CORRECT: B'' @ [NL]) =
     Inr [\<lparr>question_quiz_id = 1, question_text = ''What is 2+2?'', question_difficulty = 3,
           question_answers =
             [\<lparr>answer_text = ''3'', is_correct = False\<rparr>, \<lparr>answer_text = ''4'', is_correct = True\<rparr>,
              \<lparr>answer_text = ''5'', is_correct = False\<rparr>, \<lparr>answer_text = ''6'', is_correct = False\<rparr>]\<rparr>]"
proof -
  let ?raw = "''Intro'' @ [NL] @ ''QUESTION: What is 2+2?'' @ [NL] @ ''A: 3'' @ [NL] @ ''B: 4'' @ [NL] @
      ''C: 5'' @ [NL] @ ''D: 6'' @ [NL] @ ''CORRECT: B'' @ [NL]"
  let ?q = "\<lparr>question_quiz_id = 1, question_text = ''What is 2+2?'', question_difficulty = 3,
      question_answers =
        [\<lparr>answer_text = ''3'', is_correct = False\<rparr>, \<lparr>answer_text = ''4'', is_correct = True\<rparr>,
         \<lparr>answer_text = ''5'', is_correct = False\<rparr>, \<lparr>answer_text = ''6'', is_correct = False\<rparr>]\<rparr>"
  have run: "parse_output 1 5 3 ?raw = Inr [?q]"
    by code_simp
  have "?q \<in> set [?q]" by simp
  from parsed_questions_valid [OF run this] run show ?thesis by blast
qed

theorem parse_output_records_only_witness:
  "parse_output 1 2 3
     (''QUESTION: One?'' @ [NL] @ ''A: 3'' @ [NL] @ ''B: 4'' @ [NL] @ ''C: 5'' @ [NL] @ ''D: 6'' @ [NL] @
      ''CORRECT: B'' @ [NL] @ ''QUESTION: Two?'' @ [NL] @ ''A: 3'' @ [NL] @ ''CORRECT: A'') =
   Inr (take (nat 2) (map (make_question 1 3)
     (accepted [''One?'' @ [NL] @ ''A: 3'' @ [NL] @ ''B: 4'' @ [NL] @ ''C: 5'' @ [NL] @ ''D: 6'' @ [NL] @ ''CORRECT: B'',
                ''Two?'' @ [NL] @ ''A: 3'' @ [NL] @ ''CORRECT: A''])))"
proof -
  let ?raw = "''QUESTION: One?'' @ [NL] @ ''A: 3'' @ [NL] @ ''B: 4'' @ [NL] @ ''C: 5'' @ [NL] @ ''D: 6'' @ [NL] @
      ''CORRECT: B'' @ [NL] @ ''QUESTION: Two?'' @ [NL] @ ''A: 3'' @ [NL] @ ''CORRECT: A''"
  let ?blocks = "[''One?'' @ [NL] @ ''A: 3'' @ [NL] @ ''B: 4'' @ [NL] @ ''C: 5'' @ [NL] @ ''D: 6'' @ [NL] @ ''CORRECT: B'',
                ''Two?'' @ [NL] @ ''A: 3'' @ [NL] @ ''CORRECT: A'']"
  have blocks: "question_blocks ?raw = Inr ?blocks"
    by code_simp
  have "(1::int) \<le> 2" by simp
  with parse_output_records_only [of ?raw 1 2 3] blocks show ?thesis by auto
qed

text \<open>
  The claim as stated has the parse return the number of skipped blocks. The text
  \<^verbatim>\<open>x\<close> has one block, which is skipped, and the empty text has none, and the parse
  returns the same value, the empty list, for both.
\<close>

theorem parse_output_no_skipped_count:
  "question_blocks ''x'' = Inr [''x''] \<and> accepted [''x''] = [] \<and>
   parse_output 1 5 3 ''x'' = Inr [] \<and>
   question_blocks [] = Inr [] \<and> parse_output 1 5 3 [] = Inr []"
  by code_simp

lemma get_hierarchical_db_errors:
  "fst (get_hierarchical_db subject_id user_id w) = Inl e \<Longrightarrow>
   e = ValueError ''GOOGLE_API_KEY not found in environment variables'' \<or>
   e = ValueError ''No vector database available for this context''"
  by (auto simp: get_hierarchical_db_def initialize_embeddings_def Let_def student_query_def
      subject_query_def general_query_def scoped_query_def merge_vector_dbs_def
      FAISS_from_documents_def split: option.splits if_splits sum.splits prod.splits)

lemma parse_output_total: "\<exists>qs. parse_output quiz n d raw = Inr qs"
  using question_blocks_total [of raw] by (auto simp: parse_output_def)

text \<open>
  C10. \<^verbatim>\<open>generate_quiz_questions\<close> returns the \<^verbatim>\<open>ValueError\<close> about the number of
  questions, with nothing changed, when that number is not in 1..20; the one about the
  difficulty, with nothing changed, when the number is in range and the difficulty is not
  in 1..5; and neither of the two when both are in range.
\<close>

theorem generate_quiz_questions_validates_first:
  "(num_questions \<le> 0 \<or> num_questions > 20 \<longrightarrow>
      generate_quiz_questions subject_id quiz_id num_questions difficulty_level env =
        (Inl (ValueError ''Number of questions must be between 1 and 20''), env)) \<and>
   (1 \<le> num_questions \<and> num_questions \<le> 20 \<and> (difficulty_level < 1 \<or> difficulty_level > 5) \<longrightarrow>
      generate_quiz_questions subject_id quiz_id num_questions difficulty_level env =
        (Inl (ValueError ''Difficulty level must be between 1 and 5''), env)) \<and>
   (1 \<le> num_questions \<and> num_questions \<le> 20 \<and> 1 \<le> difficulty_level \<and> difficulty_level \<le> 5 \<longrightarrow>
      fst (generate_quiz_questions subject_id quiz_id num_questions difficulty_level env) \<noteq>
        Inl (ValueError ''Number of questions must be between 1 and 20'') \<and>
      fst (generate_quiz_questions subject_id quiz_id num_questions difficulty_level env) \<noteq>
        Inl (ValueError ''Difficulty level must be between 1 and 5''))"
proof (intro conjI impI)
  assume "num_questions \<le> 0 \<or> num_questions > 20"
  then show "generate_quiz_questions subject_id quiz_id num_questions difficulty_level env =
        (Inl (ValueError ''Number of questions must be between 1 and 20''), env)"
    by (simp add: generate_quiz_questions_def)
next
  assume "1 \<le> num_questions \<and> num_questions \<le> 20 \<and> (difficulty_level < 1 \<or> difficulty_level > 5)"
  then show "generate_quiz_questions subject_id quiz_id num_questions difficulty_level env =
        (Inl (ValueError ''Difficulty level must be between 1 and 5''), env)"
    by (auto simp: generate_quiz_questions_def)
next
  assume r: "1 \<le> num_questions \<and> num_questions \<le> 20 \<and> 1 \<le> difficulty_level \<and> difficulty_level \<le> 5"
  let ?r = "fst (generate_quiz_questions subject_id quiz_id num_questions difficulty_level env)"
  have other: "?r \<noteq> Inl (ValueError msg)"
    if "msg = ''Number of questions must be between 1 and 20'' \<or>
        msg = ''Difficulty level must be between 1 and 5''" for msg
  proof
    assume bad: "?r = Inl (ValueError msg)"
    have ghd: "m \<noteq> ''Number of questions must be between 1 and 20'' \<and>
               m \<noteq> ''Difficulty level must be between 1 and 5''"
      if "get_hierarchical_db (Some subject_id) None w = (Inl (ValueError m), w')" for w w' m
      using get_hierarchical_db_errors [of "Some subject_id" None w "ValueError m"] that
      by auto
    have po: "parse_output quiz_id num_questions difficulty_level raw \<noteq> Inl e" for raw e
      using parse_output_total [of quiz_id num_questions difficulty_level raw] by auto
    show False
      using r that bad
      by (auto simp: generate_quiz_questions_def initialize_llm_def Let_def po
          split: if_splits option.splits prod.splits sum.splits dest: ghd)
  qed
  show "?r \<noteq> Inl (ValueError ''Number of questions must be between 1 and 20'')"
    by (rule other) simp
  show "?r \<noteq> Inl (ValueError ''Difficulty level must be between 1 and 5'')"
    by (rule other) simp
qed

theorem generate_quiz_questions_validates_first_witness:
  "generate_quiz_questions 1 1 0 3
     \<lparr>index = initial_world Map.empty True (\<lambda>f. [f]), subject_rows = Map.empty, quiz_ids = {},
      groq_api_key = True, llm = False, retrieval_answer = (\<lambda>d s n l. []),
      db_session = [], db_committed = []\<rparr> =
     (Inl (ValueError ''Number of questions must be between 1 and 20''),
      \<lparr>index = initial_world Map.empty True (\<lambda>f. [f]), subject_rows = Map.empty, quiz_ids = {},
       groq_api_key = True, llm = False, retrieval_answer = (\<lambda>d s n l. []),
       db_session = [], db_committed = []\<rparr>) \<and>
   generate_quiz_questions 1 1 5 9
     \<lparr>index = initial_world Map.empty True (\<lambda>f. [f]), subject_rows = Map.empty, quiz_ids = {},
      groq_api_key = True, llm = False, retrieval_answer = (\<lambda>d s n l. []),
      db_session = [], db_committed = []\<rparr> =
     (Inl (ValueError ''Difficulty level must be between 1 and 5''),
      \<lparr>index = initial_world Map.empty True (\<lambda>f. [f]), subject_rows = Map.empty, quiz_ids = {},
       groq_api_key = True, llm = False, retrieval_answer = (\<lambda>d s n l. []),
       db_session = [], db_committed = []\<rparr>) \<and>
   fst (generate_quiz_questions 1 1 5 3
     \<lparr>index = initial_world Map.empty True (\<lambda>f. [f]), subject_rows = Map.empty, quiz_ids = {},
      groq_api_key = True, llm = False, retrieval_answer = (\<lambda>d s n l. []),
      db_session = [], db_committed = []\<rparr>) \<noteq>
     Inl (ValueError ''Number of questions must be between 1 and 20'')"
  using
    generate_quiz_questions_validates_first [where num_questions = 0 and subject_id = 1
      and quiz_id = 1 and difficulty_level = 3
      and env = "\<lparr>index = initial_world Map.empty True (\<lambda>f. [f]), subject_rows = Map.empty,
        quiz_ids = {}, groq_api_key = True, llm = False, retrieval_answer = (\<lambda>d s n l. []),
        db_session = [], db_committed = []\<rparr>"]
    generate_quiz_questions_validates_first [where num_questions = 5 and subject_id = 1
      and quiz_id = 1 and difficulty_level = 9
      and env = "\<lparr>index = initial_world Map.empty True (\<lambda>f. [f]), subject_rows = Map.empty,
        quiz_ids = {}, groq_api_key = True, llm = False, retrieval_answer = (\<lambda>d s n l. []),
        db_session = [], db_committed = []\<rparr>"]
    generate_quiz_questions_validates_first [where num_questions = 5 and subject_id = 1
      and quiz_id = 1 and difficulty_level = 3
      and env = "\<lparr>index = initial_world Map.empty True (\<lambda>f. [f]), subject_rows = Map.empty,
        quiz_ids = {}, groq_api_key = True, llm = False, retrieval_answer = (\<lambda>d s n l. []),
        db_session = [], db_committed = []\<rparr>"]
  by simp

end
